theory Spec2Isabelle
  imports Complex_Main "HOL-Library.Multiset" "HOL-Library.Signed_Division"
begin

section \<open>Data model\<close>

text \<open>
  The options of one invocation (\<open>struct LsOptions\<close>, lines 13-21 of \<open>lls.cpp\<close>), with
  the defaults of the member initialisers.
\<close>

record LsOptions =
  longListing :: bool
  directoriesOnly :: bool
  sortByTime :: bool
  sortBySize :: bool
  oneColumn :: bool
  multiColumn :: bool
  directory :: string

definition default_options :: LsOptions where
  "default_options =
     \<lparr>longListing = False, directoriesOnly = False, sortByTime = False, sortBySize = False,
      oneColumn = False, multiColumn = False, directory = ''.''\<rparr>"

text \<open>
  A \<open>fs::directory_entry\<close> as \<open>ListFiles\<close> reads it: the four queries the code makes on an
  entry (\<open>path().filename().string()\<close>, \<open>is_directory()\<close>, \<open>fs::file_size\<close>,
  \<open>fs::last_write_time\<close>) are the fields of a snapshot. The queries are taken to succeed
  on an entry that has just been enumerated; \<open>file_size\<close> is a \<open>uintmax_t\<close>, the write
  time a tick count.
\<close>

record directory_entry =
  filename :: string
  is_directory :: bool
  file_size :: nat
  last_write_time :: int

text \<open>The two output streams, each as the text written to it so far.\<close>

record streams =
  cout :: string
  cerr :: string

definition no_output :: streams where
  "no_output = \<lparr>cout = [], cerr = []\<rparr>"

definition endl :: string where
  "endl = [CHR 0x0A]"

text \<open>
  Field padding of an output stream for one insertion after \<open>std::setw(w)\<close>, with the
  fill character a space: \<open>std::left\<close> pads on the right, the default adjustment pads on the
  left, and a text at least as long as the field is written as it is.
\<close>

definition setw_left :: "int \<Rightarrow> string \<Rightarrow> string" where
  "setw_left w s = s @ replicate (nat w - length s) CHR '' ''"

definition setw_right :: "int \<Rightarrow> string \<Rightarrow> string" where
  "setw_right w s = replicate (nat w - length s) CHR '' '' @ s"

text \<open>
  Integer division and remainder of C++ \<open>int\<close>: truncating, and a fault when the divisor
  is zero. Name lengths, entry counts and console widths are far inside the range of a
  32-bit \<open>int\<close>, so the values are mathematical integers.
\<close>

datatype fault = DivideByZero

definition c_div :: "int \<Rightarrow> int \<Rightarrow> fault + int" where
  "c_div a b = (if b = 0 then Inl DivideByZero else Inr (a sdiv b))"

definition c_mod :: "int \<Rightarrow> int \<Rightarrow> fault + int" where
  "c_mod a b = (if b = 0 then Inl DivideByZero else Inr (a smod b))"

section \<open>Multi-column output (lines 124-150)\<close>

text \<open>The loop of lines 128-133: the running maximum of the name lengths, from 0.\<close>

fun max_filename_length :: "directory_entry list \<Rightarrow> int \<Rightarrow> int" where
  "max_filename_length [] maxFilenameLength = maxFilenameLength"
| "max_filename_length (entry # rest) maxFilenameLength =
     (let filenameLength = int (length (filename entry))
      in max_filename_length rest
           (if filenameLength > maxFilenameLength then filenameLength else maxFilenameLength))"

text \<open>Lines 135-136: the number of columns, at least 1.\<close>

definition column_count :: "int \<Rightarrow> int \<Rightarrow> fault + int" where
  "column_count consoleWidth maxFilenameLength =
     (case c_div consoleWidth (maxFilenameLength + 2) of
        Inl f \<Rightarrow> Inl f
      | Inr columns \<Rightarrow> Inr (if columns < 1 then 1 else columns))"

text \<open>
  The loop of lines 139-145: each name in a left-justified field, two spaces, and a line
  end whenever the incremented counter \<open>count\<close> (here \<open>cnt\<close>) is a multiple of the column count.
\<close>

fun print_columns ::
  "int \<Rightarrow> int \<Rightarrow> directory_entry list \<Rightarrow> int \<times> streams \<Rightarrow> fault + int \<times> streams" where
  "print_columns maxFilenameLength columns [] (cnt, io) = Inr (cnt, io)"
| "print_columns maxFilenameLength columns (entry # rest) (cnt, io) =
     (let io1 = io\<lparr>cout := cout io @ setw_left maxFilenameLength (filename entry) @ ''  ''\<rparr>;
          cnt1 = cnt + 1
      in case c_mod cnt1 columns of
           Inl f \<Rightarrow> Inl f
         | Inr r \<Rightarrow>
             print_columns maxFilenameLength columns rest
               (cnt1, if r = 0 then io1\<lparr>cout := cout io1 @ endl\<rparr> else io1))"

text \<open>The whole branch \<open>if (options.multiColumn)\<close>, ending in its \<open>return\<close>.\<close>

definition multi_column :: "int \<Rightarrow> directory_entry list \<Rightarrow> streams \<Rightarrow> fault + streams" where
  "multi_column consoleWidth entries io =
     (let maxFilenameLength = max_filename_length entries 0
      in case column_count consoleWidth maxFilenameLength of
           Inl f \<Rightarrow> Inl f
         | Inr columns \<Rightarrow>
             (case print_columns maxFilenameLength columns entries (0, io) of
                Inl f \<Rightarrow> Inl f
              | Inr (cnt, io1) \<Rightarrow>
                  (case c_mod cnt columns of
                     Inl f \<Rightarrow> Inl f
                   | Inr r \<Rightarrow> Inr (if r \<noteq> 0 then io1\<lparr>cout := cout io1 @ endl\<rparr> else io1))))"

section \<open>The platform\<close>

text \<open>
  What the program takes from the C++ library and the operating system, as parameters:
  the three \<open>std::filesystem\<close> calls on a path, \<open>std::sort\<close>, the console window,
  and the time conversion. \<open>directory_iterator\<close> yields the entries of a directory in the
  order of the enumeration, or the \<open>fs::filesystem_error\<close> that construction or iteration
  throws. \<open>console_window\<close> is \<open>srWindow.Left\<close> and \<open>srWindow.Right\<close> when
  \<open>GetConsoleScreenBufferInfo\<close> succeeds. \<open>to_time_t\<close> is the rebasing of a file time onto
  the system clock (lines 157-159); \<open>localtime_s\<close> is \<open>None\<close> when the call returns a
  non-zero error code.
\<close>

datatype filesystem_error = Filesystem_error (what: string)

record tm =
  tm_sec :: int
  tm_min :: int
  tm_hour :: int
  tm_mday :: int
  tm_mon :: int
  tm_year :: int

type_synonym 'a sorter = "('a \<Rightarrow> 'a \<Rightarrow> bool) \<Rightarrow> 'a list \<Rightarrow> 'a list"

record platform =
  fs_exists :: "string \<Rightarrow> bool"
  fs_is_directory :: "string \<Rightarrow> bool"
  directory_iterator :: "string \<Rightarrow> filesystem_error + directory_entry list"
  std_sort :: "directory_entry sorter"
  console_window :: "(int \<times> int) option"
  to_time_t :: "int \<Rightarrow> int"
  localtime_s :: "int \<Rightarrow> tm option"





fun insert_ahead :: "('a \<Rightarrow> 'a \<Rightarrow> bool) \<Rightarrow> 'a \<Rightarrow> 'a list \<Rightarrow> 'a list" where
  "insert_ahead cmp x [] = [x]"
| "insert_ahead cmp x (y # ys) =
     (if cmp y x then y # insert_ahead cmp x ys else x # y # ys)"

definition tie_keeping_sort :: "'a sorter" where
  "tie_keeping_sort cmp xs = foldr (insert_ahead cmp) xs []"

section \<open>Argument parsing (lines 24-86)\<close>

definition usage_text :: string where
  "usage_text =
     ''Usage: lls [options] [directory]'' @ endl @
     ''Options:'' @ endl @
     ''  -l        Long listing format'' @ endl @
     ''  -d        List directories only'' @ endl @
     ''  -t        Sort by modification time'' @ endl @
     ''  -s        Sort by file size'' @ endl @
     ''  -1        One column output'' @ endl @
     ''  -C        Multi-column output'' @ endl"

definition DisplayUsage :: "streams \<Rightarrow> streams" where
  "DisplayUsage io = io\<lparr>cout := cout io @ usage_text\<rparr>"

definition IsValidDirectory :: "platform \<Rightarrow> string \<Rightarrow> bool" where
  "IsValidDirectory p dir \<longleftrightarrow> fs_exists p dir \<and> fs_is_directory p dir"

text \<open>
  \<open>arg[0]\<close> of a \<open>std::string\<close>: the first character, and the terminating null
  character when the string is empty.
\<close>

definition first_char :: "string \<Rightarrow> char" where
  "first_char arg = (case arg of [] \<Rightarrow> CHR 0x00 | c # _ \<Rightarrow> c)"

text \<open>
  The result of \<open>ParseArguments\<close>: the process has left through \<open>exit(0)\<close>, or the
  function has returned with the options filled in.
\<close>

datatype parsed = Exited streams | Returned LsOptions streams

text \<open>The loop body of lines 43-84 over the arguments that are left.\<close>

fun parse_loop :: "platform \<Rightarrow> string list \<Rightarrow> LsOptions \<Rightarrow> streams \<Rightarrow> parsed" where
  "parse_loop p [] options io = Returned options io"
| "parse_loop p (arg # rest) options io =
     (if arg = ''-l'' then parse_loop p rest (options\<lparr>longListing := True\<rparr>) io
      else if arg = ''-d'' then parse_loop p rest (options\<lparr>directoriesOnly := True\<rparr>) io
      else if arg = ''-t'' then parse_loop p rest (options\<lparr>sortByTime := True\<rparr>) io
      else if arg = ''-s'' then parse_loop p rest (options\<lparr>sortBySize := True\<rparr>) io
      else if arg = ''-1'' then parse_loop p rest (options\<lparr>oneColumn := True\<rparr>) io
      else if arg = ''-C'' then parse_loop p rest (options\<lparr>multiColumn := True\<rparr>) io
      else if arg = ''--help'' \<or> arg = ''-h'' \<or> arg = ''-?'' then Exited (DisplayUsage io)
      else if arg = ''--version'' then
        Exited (io\<lparr>cout := cout io @ ''lls version 1.0.0'' @ endl\<rparr>)
      else if first_char arg = CHR ''-'' then
        parse_loop p rest options
          (DisplayUsage (io\<lparr>cerr := cerr io @ ''Unknown option: '' @ arg @ endl\<rparr>))
      else if \<not> IsValidDirectory p arg then
        parse_loop p rest options
          (DisplayUsage (io\<lparr>cerr := cerr io @ ''Invalid directory: '' @ arg @ endl\<rparr>))
      else parse_loop p rest (options\<lparr>directory := arg\<rparr>) io)"

text \<open>\<open>argv\<close> with the program name first: the loop starts at index 1.\<close>

definition ParseArguments :: "platform \<Rightarrow> string list \<Rightarrow> LsOptions \<Rightarrow> streams \<Rightarrow> parsed" where
  "ParseArguments p argv options io = parse_loop p (drop 1 argv) options io"

definition GetConsoleWidth :: "platform \<Rightarrow> int" where
  "GetConsoleWidth p =
     (case console_window p of Some (left, right) \<Rightarrow> right - left + 1 | None \<Rightarrow> 80)"

section \<open>Listing (lines 98-186)\<close>

text \<open>Lines 105-110: the entries are collected in the order of the enumeration.\<close>

fun collect_entries ::
  "LsOptions \<Rightarrow> directory_entry list \<Rightarrow> directory_entry list \<Rightarrow> directory_entry list" where
  "collect_entries options [] entries = entries"
| "collect_entries options (entry # rest) entries =
     (if directoriesOnly options \<and> \<not> is_directory entry
      then collect_entries options rest entries
      else collect_entries options rest (entries @ [entry]))"

text \<open>Lines 113-122: one call of \<open>std::sort\<close> at most, with the comparison of the flag.\<close>

definition sort_entries ::
  "directory_entry sorter \<Rightarrow> LsOptions \<Rightarrow> directory_entry list \<Rightarrow> directory_entry list" where
  "sort_entries srt options entries =
     (if sortByTime options then
        srt (\<lambda>a b. last_write_time a > last_write_time b) entries
      else if sortBySize options then
        srt (\<lambda>a b. file_size a > file_size b) entries
      else entries)"

subsection \<open>Numbers and times as text\<close>

text \<open>
  The decimal digits that \<open>operator<<\<close> writes for an unsigned integer, and for an
  \<open>int\<close>.
\<close>

definition digit_char :: "nat \<Rightarrow> char" where
  "digit_char d = ''0123456789'' ! d"

fun decimal :: "nat \<Rightarrow> string" where
  "decimal n = (if n < 10 then [digit_char n] else decimal (n div 10) @ [digit_char (n mod 10)])"

definition decimal_int :: "int \<Rightarrow> string" where
  "decimal_int i = (if i < 0 then CHR ''-'' # decimal (nat (- i)) else decimal (nat i))"

definition two_digits :: "int \<Rightarrow> string" where
  "two_digits i = (let s = decimal_int i in replicate (2 - length s) CHR ''0'' @ s)"

text \<open>
  \<open>std::put_time\<close> with the conversions of \<open>strftime\<close> that the format of line 166 uses:
  \<open>%Y\<close> is the year as a decimal number, \<open>%m\<close> the month from 01, \<open>%d\<close>, \<open>%H\<close>,
  \<open>%M\<close> and \<open>%S\<close> the day, hour, minute and second in two digits. Other characters are
  copied.
\<close>

definition conversion :: "tm \<Rightarrow> char \<Rightarrow> string" where
  "conversion t c =
     (if c = CHR ''Y'' then decimal_int (1900 + tm_year t)
      else if c = CHR ''m'' then two_digits (tm_mon t + 1)
      else if c = CHR ''d'' then two_digits (tm_mday t)
      else if c = CHR ''H'' then two_digits (tm_hour t)
      else if c = CHR ''M'' then two_digits (tm_min t)
      else if c = CHR ''S'' then two_digits (tm_sec t)
      else [CHR ''%'', c])"

fun put_time :: "tm \<Rightarrow> string \<Rightarrow> string" where
  "put_time t (c # d # fmt) =
     (if c = CHR ''%'' then conversion t d @ put_time t fmt else c # put_time t (d # fmt))"
| "put_time t fmt = fmt"

subsection \<open>The display loop\<close>

text \<open>
  The body of the loop of lines 153-177 for one entry: the long line or the conversion
  error of lines 156-171, or the name with its separator of line 175.
\<close>

definition display_entry :: "platform \<Rightarrow> LsOptions \<Rightarrow> directory_entry \<Rightarrow> streams \<Rightarrow> streams" where
  "display_entry p options entry io =
     (if longListing options then
        (case localtime_s p (to_time_t p (last_write_time entry)) of
           Some timeInfo \<Rightarrow>
             io\<lparr>cout := cout io @ (if is_directory entry then ''d'' else ''-'')
                    @ setw_right 10 (decimal (file_size entry)) @ '' ''
                    @ put_time timeInfo ''%Y-%m-%d %H:%M:%S'' @ '' ''
                    @ filename entry @ endl\<rparr>
         | None \<Rightarrow>
             io\<lparr>cerr := cerr io @ ''Error converting time for file: '' @ filename entry @ endl\<rparr>)
      else io\<lparr>cout := cout io @ filename entry @ (if oneColumn options then endl else ''  '')\<rparr>)"

fun display_entries ::
  "platform \<Rightarrow> LsOptions \<Rightarrow> directory_entry list \<Rightarrow> streams \<Rightarrow> streams" where
  "display_entries p options [] io = io"
| "display_entries p options (entry # rest) io =
     display_entries p options rest (display_entry p options entry io)"

subsection \<open>\<open>ListFiles\<close> and \<open>main\<close>\<close>

text \<open>
  The \<open>try\<close> block and its handler. An exception of the enumeration leaves the block
  before anything is written; the handler writes one line with \<open>e.what()\<close>.
\<close>

definition ListFiles :: "platform \<Rightarrow> LsOptions \<Rightarrow> streams \<Rightarrow> fault + streams" where
  "ListFiles p options io =
     (case directory_iterator p (directory options) of
        Inl e \<Rightarrow> Inr (io\<lparr>cerr := cerr io @ ''Error: '' @ what e @ endl\<rparr>)
      | Inr dirIter \<Rightarrow>
          (let entries = sort_entries (std_sort p) options (collect_entries options dirIter [])
           in if multiColumn options then multi_column (GetConsoleWidth p) entries io
              else
                (let io1 = display_entries p options entries io
                 in Inr (if \<not> oneColumn options then io1\<lparr>cout := cout io1 @ endl\<rparr> else io1))))"

definition main :: "platform \<Rightarrow> string list \<Rightarrow> fault + streams" where
  "main p argv =
     (case ParseArguments p argv default_options no_output of
        Exited io \<Rightarrow> Inr io
      | Returned options io \<Rightarrow> ListFiles p options io)"

section \<open>The words of the specification\<close>

text \<open>
  The layouts as the specification describes them, to compare the code with. A grid is
  the entries cut into rows of \<open>c\<close>, the last row shorter when the count is not a
  multiple of \<open>c\<close>; each entry is a cell of the name padded to \<open>m\<close> characters and two
  spaces.
\<close>

function rows_of :: "nat \<Rightarrow> 'a list \<Rightarrow> 'a list list" where
  "rows_of c xs = (if c = 0 \<or> xs = [] then [] else take c xs # rows_of c (drop c xs))"
  by pat_completeness auto
termination
  by (relation "measure (\<lambda>(c, xs). length xs)") auto

definition cell :: "nat \<Rightarrow> directory_entry \<Rightarrow> string" where
  "cell m entry = filename entry @ replicate (m - length (filename entry)) CHR '' '' @ ''  ''"

definition grid_text :: "nat \<Rightarrow> nat \<Rightarrow> directory_entry list \<Rightarrow> string" where
  "grid_text m c entries = concat (map (\<lambda>row. concat (map (cell m) row) @ endl) (rows_of c entries))"

text \<open>The four layout modes and their precedence.\<close>

datatype LayoutMode = Grid | Long | OneColumn | Default







section \<open>A platform to run the program on\<close>

text \<open>
  A small file system for the concrete runs below: the current directory holds seven
  entries with five-letter names, \<open>docs\<close> is an empty directory, \<open>logs\<close> holds three
  files, \<open>notes.txt\<close> is a file, and no other path exists. The console window is 40
  columns wide, the file clock is the system clock, and \<open>localtime_s\<close> knows three
  instants (in UTC) and fails on every other.
\<close>

definition plain_file :: "string \<Rightarrow> nat \<Rightarrow> int \<Rightarrow> directory_entry" where
  "plain_file nm sz t = \<lparr>filename = nm, is_directory = False, file_size = sz, last_write_time = t\<rparr>"

definition folder :: "string \<Rightarrow> int \<Rightarrow> directory_entry" where
  "folder nm t = \<lparr>filename = nm, is_directory = True, file_size = 0, last_write_time = t\<rparr>"

definition demo_entries :: "directory_entry list" where
  "demo_entries =
     [plain_file ''alpha'' 1200 1600000000, folder ''bravo'' 1700000300, plain_file ''delta'' 45 1700000000,
      plain_file ''gamma'' 45 1600000000, plain_file ''kappa'' 12345678901 99, plain_file ''omega'' 7 1700000000,
      plain_file ''sigma'' 0 1700000300]"

definition log_entries :: "directory_entry list" where
  "log_entries =
     [plain_file ''old.log'' 10 1600000000, plain_file ''new.log'' 20 1700000300,
      plain_file ''mid.log'' 20 1700000000]"

definition demo_localtime :: "int \<Rightarrow> tm option" where
  "demo_localtime t =
     (if t = 1600000000 then
        Some \<lparr>tm_sec = 40, tm_min = 26, tm_hour = 12, tm_mday = 13, tm_mon = 8, tm_year = 120\<rparr>
      else if t = 1700000000 then
        Some \<lparr>tm_sec = 20, tm_min = 13, tm_hour = 22, tm_mday = 14, tm_mon = 10, tm_year = 123\<rparr>
      else if t = 1700000300 then
        Some \<lparr>tm_sec = 20, tm_min = 18, tm_hour = 22, tm_mday = 14, tm_mon = 10, tm_year = 123\<rparr>
      else None)"

definition demo_platform :: platform where
  "demo_platform =
     \<lparr>fs_exists = (\<lambda>d. d = ''.'' \<or> d = ''docs'' \<or> d = ''logs'' \<or> d = ''notes.txt''),
      fs_is_directory = (\<lambda>d. d = ''.'' \<or> d = ''docs'' \<or> d = ''logs''),
      directory_iterator =
        (\<lambda>d. if d = ''.'' then Inr demo_entries
             else if d = ''docs'' then Inr []
             else if d = ''logs'' then Inr log_entries
             else Inl (Filesystem_error (''directory_iterator: cannot open '' @ d))),
      std_sort = tie_keeping_sort,
      console_window = Some (0, 39),
      to_time_t = (\<lambda>t. t),
      localtime_s = demo_localtime\<rparr>"







text \<open>
  A positional argument is one that does not start with a hyphen (every flag does); it
  is taken as the directory when \<open>IsValidDirectory\<close> holds of it.
\<close>

definition directory_argument :: "platform \<Rightarrow> string \<Rightarrow> bool" where
  "directory_argument p arg \<longleftrightarrow> first_char arg \<noteq> CHR ''-'' \<and> IsValidDirectory p arg"

definition known_flags :: "string list" where
  "known_flags =
     [''-l'', ''-d'', ''-t'', ''-s'', ''-1'', ''-C'', ''--help'', ''-h'', ''-?'', ''--version'']"

text \<open>One cell as the loop writes it: the name in its field, and two spaces.\<close>

abbreviation (input) cellw :: "int \<Rightarrow> directory_entry \<Rightarrow> string" where
  "cellw m e \<equiv> setw_left m (filename e) @ ''  ''"

section \<open>The grid\<close>

declare rows_of.simps [simp del]
declare decimal.simps [simp del]

lemma max_filename_length_upper:
  "m \<le> max_filename_length es m \<and> (\<forall>e\<in>set es. int (length (filename e)) \<le> max_filename_length es m)"
proof (induction es arbitrary: m)
  case Nil
  then show ?case by simp
next
  case (Cons e es)
  show ?case
    using Cons.IH [of m] Cons.IH [of "int (length (filename e))"]
    by (auto simp: Let_def)
qed

lemma max_filename_length_attained:
  "max_filename_length es m = m \<or> (\<exists>e\<in>set es. max_filename_length es m = int (length (filename e)))"
proof (induction es arbitrary: m)
  case Nil
  then show ?case by simp
next
  case (Cons e es)
  show ?case
    using Cons.IH [of m] Cons.IH [of "int (length (filename e))"]
    by (auto simp: Let_def)
qed

lemma max_filename_length_Max:
  "max_filename_length es m = Max (insert m ((\<lambda>e. int (length (filename e))) ` set es))"
proof (rule Max_eqI [symmetric])
  show "finite (insert m ((\<lambda>e. int (length (filename e))) ` set es))" by simp
  show "\<And>y. y \<in> insert m ((\<lambda>e. int (length (filename e))) ` set es) \<Longrightarrow> y \<le> max_filename_length es m"
    using max_filename_length_upper [of m es] by auto
  show "max_filename_length es m \<in> insert m ((\<lambda>e. int (length (filename e))) ` set es)"
    using max_filename_length_attained [of es m] by auto
qed

lemma max_filename_length_nonneg: "0 \<le> m \<Longrightarrow> 0 \<le> max_filename_length es m"
  using max_filename_length_upper [of m es] by linarith

lemma max_filename_length_ge:
  "e \<in> set es \<Longrightarrow> int (length (filename e)) \<le> max_filename_length es m"
  using max_filename_length_upper [of m es] by blast

lemma sdiv_clamp:
  fixes a b :: int
  assumes "0 < b"
  shows "(if a sdiv b < 1 then 1 else a sdiv b) = max 1 (a div b)"
proof (cases "0 \<le> a")
  case True
  then have "a sdiv b = a div b"
    using assms by (simp add: signed_divide_int_def sgn_if)
  then show ?thesis by (simp add: max_def)
next
  case False
  then have "a sdiv b \<le> 0"
    using assms by (simp add: signed_divide_int_def sgn_if pos_imp_zdiv_nonneg_iff)
  moreover have "a div b < 0"
    using False assms by (simp add: pos_imp_zdiv_neg_iff)
  ultimately show ?thesis by (simp add: max_def)
qed

lemma column_count_eq:
  "0 \<le> m \<Longrightarrow> column_count w m = Inr (max 1 (w div (m + 2)))"
  using sdiv_clamp [of "m + 2" w]
  by (simp add: column_count_def c_div_def)

lemma c_mod_pos: "0 \<le> a \<Longrightarrow> 0 < b \<Longrightarrow> c_mod a b = Inr (a mod b)"
  by (simp add: c_mod_def smod_mod_positive)

lemma print_columns_partial:
  "0 \<le> k \<Longrightarrow> 0 < c \<Longrightarrow> k mod c + int (length xs) < c \<Longrightarrow>
   print_columns m c xs (k, io) =
     Inr (k + int (length xs), io\<lparr>cout := cout io @ concat (map (cellw m) xs)\<rparr>)"
proof (induction xs arbitrary: k io)
  case Nil
  then show ?case by simp
next
  case (Cons e xs)
  have "0 \<le> k mod c" using Cons.prems by simp
  have "(k + 1) mod c = (k mod c + 1) mod c" by (simp add: mod_add_left_eq)
  also have "\<dots> = k mod c + 1"
    using Cons.prems \<open>0 \<le> k mod c\<close> by (simp add: mod_pos_pos_trivial)
  finally have step: "(k + 1) mod c = k mod c + 1" .
  have nz: "(k + 1) mod c \<noteq> 0"
    using step \<open>0 \<le> k mod c\<close> by simp
  have "print_columns m c xs (k + 1, io\<lparr>cout := cout io @ cellw m e\<rparr>) =
        Inr (k + 1 + int (length xs),
             io\<lparr>cout := cout io @ cellw m e @ concat (map (cellw m) xs)\<rparr>)"
    using Cons.IH [of "k + 1" "io\<lparr>cout := cout io @ cellw m e\<rparr>"] Cons.prems step
    by simp
  then show ?case
    using Cons.prems nz by (simp add: c_mod_pos Let_def)
qed

lemma print_columns_append:
  "print_columns m c (xs @ ys) s =
     (case print_columns m c xs s of Inl f \<Rightarrow> Inl f | Inr s' \<Rightarrow> print_columns m c ys s')"
proof (induction xs arbitrary: s)
  case Nil
  show ?case by (cases s) simp
next
  case (Cons e xs)
  obtain k io where s: "s = (k, io)" by (cases s)
  show ?case
    by (simp add: s Let_def Cons.IH split: sum.splits)
qed

lemma print_columns_full_row:
  assumes "0 \<le> k" "0 < c" "k mod c = 0" "int (length xs) = c"
  shows "print_columns m c xs (k, io) =
     Inr (k + c, io\<lparr>cout := cout io @ concat (map (cellw m) xs) @ endl\<rparr>)"
proof -
  from assms have "xs \<noteq> []" by auto
  then obtain ys e where xs: "xs = ys @ [e]"
    by (metis append_butlast_last_id)
  have len: "int (length ys) = c - 1" using assms xs by simp
  have part: "print_columns m c ys (k, io) =
      Inr (k + (c - 1), io\<lparr>cout := cout io @ concat (map (cellw m) ys)\<rparr>)"
    using print_columns_partial [of k c ys m io] assms len by simp
  have "(k + (c - 1) + 1) mod c = 0"
    using assms by (simp add: mod_add_left_eq [symmetric])
  moreover have "0 \<le> k + (c - 1) + 1" using assms by simp
  ultimately have "c_mod (k + (c - 1) + 1) c = Inr 0"
    using assms c_mod_pos by metis
  then show ?thesis
    by (simp add: xs print_columns_append part Let_def)
qed

lemma print_columns_rows:
  "0 < c \<Longrightarrow> 0 \<le> k \<Longrightarrow> k mod int c = 0 \<Longrightarrow>
    (case print_columns m (int c) es (k, io) of
       Inl f \<Rightarrow> Inl f
     | Inr (cnt, io1) \<Rightarrow>
         (case c_mod cnt (int c) of
            Inl f \<Rightarrow> Inl f
          | Inr r \<Rightarrow> Inr (if r \<noteq> 0 then io1\<lparr>cout := cout io1 @ endl\<rparr> else io1)))
    = Inr (io\<lparr>cout := cout io @
             concat (map (\<lambda>row. concat (map (cellw m) row) @ endl) (rows_of c es))\<rparr>)"
proof (induction c es arbitrary: k io rule: rows_of.induct)
  case (1 c xs)
  show ?case
  proof (cases "xs = []")
    case True
    then show ?thesis
      using 1(2,3,4) c_mod_pos [of k "int c"] by (simp add: rows_of.simps)
  next
    case False
    note ne = this
    show ?thesis
    proof (cases "length xs < c")
      case True
      have r: "rows_of c xs = [xs]"
        using True ne 1(2) by (simp add: rows_of.simps [of c xs] rows_of.simps [of c "[]"])
      have p: "print_columns m (int c) xs (k, io) =
          Inr (k + int (length xs), io\<lparr>cout := cout io @ concat (map (cellw m) xs)\<rparr>)"
        using print_columns_partial [of k "int c" xs m io] True 1 by simp
      have "(k + int (length xs)) mod int c = int (length xs)"
        using True 1 by (simp add: mod_add_left_eq [symmetric] mod_pos_pos_trivial)
      then have "c_mod (k + int (length xs)) (int c) = Inr (int (length xs))"
        using c_mod_pos [of "k + int (length xs)" "int c"] 1 True by simp
      then show ?thesis
        using ne by (simp add: r p)
    next
      case False
      let ?row = "take c xs" and ?rest = "drop c xs"
      have c0: "0 < c" using 1(2) .
      have r: "rows_of c xs = ?row # rows_of c ?rest"
        using c0 ne by (simp add: rows_of.simps [of c xs])
      have lr: "int (length ?row) = int c" using False by simp
      have p: "print_columns m (int c) ?row (k, io) =
          Inr (k + int c, io\<lparr>cout := cout io @ concat (map (cellw m) ?row) @ endl\<rparr>)"
        using print_columns_full_row [of k "int c" ?row m io] c0 1(3,4) lr by simp
      have ih: "(case print_columns m (int c) ?rest (k + int c, io\<lparr>cout := cout io @ concat (map (cellw m) ?row) @ endl\<rparr>) of
           Inl f \<Rightarrow> Inl f
         | Inr (cnt, io1) \<Rightarrow>
             (case c_mod cnt (int c) of
                Inl f \<Rightarrow> Inl f
              | Inr r \<Rightarrow> Inr (if r \<noteq> 0 then io1\<lparr>cout := cout io1 @ endl\<rparr> else io1)))
          = Inr (io\<lparr>cout := cout io @ concat (map (cellw m) ?row) @ endl @
                 concat (map (\<lambda>row. concat (map (cellw m) row) @ endl) (rows_of c ?rest))\<rparr>)"
        using 1(1) [of "k + int c" "io\<lparr>cout := cout io @ concat (map (cellw m) ?row) @ endl\<rparr>"]
          c0 ne 1(3,4) by simp
      have "print_columns m (int c) xs (k, io) =
          print_columns m (int c) ?rest (k + int c, io\<lparr>cout := cout io @ concat (map (cellw m) ?row) @ endl\<rparr>)"
        using print_columns_append [of m "int c" ?row ?rest "(k, io)"] p by simp
      then show ?thesis
        using ih by (simp add: r)
    qed
  qed
qed


lemma length_rows_of: "0 < c \<Longrightarrow> length (rows_of c xs) = (length xs + c - 1) div c"
proof (induction c xs rule: rows_of.induct)
  case (1 c xs)
  show ?case
  proof (cases "xs = []")
    case True
    then show ?thesis using 1(2) by (simp add: rows_of.simps)
  next
    case False
    then have r: "rows_of c xs = take c xs # rows_of c (drop c xs)"
      using 1(2) by (simp add: rows_of.simps [of c xs])
    have ih: "length (rows_of c (drop c xs)) = (length xs - c + c - 1) div c"
      using 1(1) False 1(2) by simp
    show ?thesis
    proof (cases "length xs < c")
      case True
      then have "(length xs + c - 1) div c = 1"
        using False 1(2) by (cases xs) (auto simp: div_eq_dividend_iff Suc_lessI div_nat_eqI)
      moreover have "rows_of c (drop c xs) = []"
        using True by (simp add: rows_of.simps [of c "[]"])
      ultimately show ?thesis by (simp add: r)
    next
      case False
      then have "length xs + c - 1 = (length xs - c + c - 1) + c" using 1(2) by simp
      then have "(length xs + c - 1) div c = (length xs - c + c - 1) div c + 1"
        using 1(2) by (metis div_add_self2 less_numeral_extra(3))
      then show ?thesis by (simp add: r ih)
    qed
  qed
qed

lemma neg_div_int:
  fixes n c :: int
  assumes "0 < c"
  shows "(- n) div c = - ((n - 1) div c) - 1"
proof (rule int_div_pos_eq [where r = "c - (n - 1) mod c - 1"])
  have "n - 1 = c * ((n - 1) div c) + (n - 1) mod c" by simp
  then show "- n = c * (- ((n - 1) div c) - 1) + (c - (n - 1) mod c - 1)"
    by (simp add: algebra_simps)
  show "0 \<le> c - (n - 1) mod c - 1"
    using assms pos_mod_bound [of c "n - 1"] by simp
  show "c - (n - 1) mod c - 1 < c"
    using assms pos_mod_sign [of c "n - 1"] by linarith
qed

lemma ceil_div_int:
  fixes n c :: int
  assumes "0 < c"
  shows "(n + c - 1) div c = - ((- n) div c)"
proof -
  have a: "(n + c - 1) div c = (n - 1) div c + 1"
    using assms div_add_self2 [of c "n - 1"] by (simp add: algebra_simps)
  show ?thesis
    using a neg_div_int [OF assms, of n] by simp
qed

lemma ceiling_rows:
  assumes "0 < c"
  shows "int ((n + c - 1) div c) = \<lceil>real n / real c\<rceil>"
proof -
  have "\<lceil>real n / real c\<rceil> = \<lceil>of_int (int n) / (of_int (int c) :: real)\<rceil>" by simp
  also have "\<dots> = - ((- int n) div int c)" by (simp only: ceiling_divide_eq_div)
  also have "\<dots> = (int n + int c - 1) div int c"
    using ceil_div_int [of "int c" "int n"] assms by simp
  also have "\<dots> = int ((n + c - 1) div c)"
    using assms by (simp add: zdiv_int of_nat_diff)
  finally show ?thesis by simp
qed

lemma cell_setw: "0 \<le> m \<Longrightarrow> cellw m e = cell (nat m) e"
  by (simp add: cell_def setw_left_def)

lemma multi_column_eq:
  "multi_column w es io =
     Inr (io\<lparr>cout := cout io @
            grid_text (nat (max_filename_length es 0))
              (nat (max 1 (w div (max_filename_length es 0 + 2)))) es\<rparr>)"
proof -
  let ?m = "max_filename_length es 0"
  let ?c = "max 1 (w div (?m + 2))"
  have m: "0 \<le> ?m" by (simp add: max_filename_length_nonneg)
  have cc: "column_count w ?m = Inr ?c" using m by (rule column_count_eq)
  have c: "int (nat ?c) = ?c" "0 < nat ?c" by simp_all
  have "cellw ?m = cell (nat ?m)"
    by (rule ext) (simp add: cell_def setw_left_def)
  then have cells: "(\<lambda>row. concat (map (cellw ?m) row) @ endl) = (\<lambda>row. concat (map (cell (nat ?m)) row) @ endl)"
    by simp
  show ?thesis
    using print_columns_rows [of "nat ?c" 0 ?m es io] c
    by (simp only: multi_column_def Let_def cc sum.case grid_text_def cells) simp
qed

lemma collect_entries_filter:
  "collect_entries options xs acc =
     acc @ filter (\<lambda>e. \<not> (directoriesOnly options \<and> \<not> is_directory e)) xs"
  by (induction xs arbitrary: acc) auto

lemma max_filename_length_nat:
  assumes ne: "es \<noteq> []"
  shows "max_filename_length es 0 = int (Max ((\<lambda>e. length (filename e)) ` set es))"
proof -
  let ?S = "(\<lambda>e. length (filename e)) ` set es"
  have fin: "finite ?S" "?S \<noteq> {}" using ne by auto
  have up: "\<And>e. e \<in> set es \<Longrightarrow> length (filename e) \<le> Max ?S"
    using fin by (intro Max_ge) auto
  have "Max ?S \<in> ?S" using fin by (rule Max_in)
  then obtain e0 where e0: "e0 \<in> set es" "Max ?S = length (filename e0)" by auto
  have "Max (insert 0 ((\<lambda>e. int (length (filename e))) ` set es)) = int (Max ?S)"
  proof (rule Max_eqI)
    show "finite (insert 0 ((\<lambda>e. int (length (filename e))) ` set es))" by simp
    show "\<And>y. y \<in> insert 0 ((\<lambda>e. int (length (filename e))) ` set es) \<Longrightarrow> y \<le> int (Max ?S)"
      using up by auto
    show "int (Max ?S) \<in> insert 0 ((\<lambda>e. int (length (filename e))) ` set es)"
      using e0 by auto
  qed
  then show ?thesis by (simp add: max_filename_length_Max)
qed

text \<open>
  C2. With \<open>-C\<close>, for a non-empty sequence of entries (the collected entries after the
  sort) and every console width: the column count is the larger of 1 and the floor of
  the width divided by the longest name length plus 2; the text written is the rows of
  that many entries, each entry a cell of the name padded on the right to the longest
  name length and two spaces, each row (the last, shorter one too) ended by one line end;
  so the rows number the ceiling of the entry count divided by the column count. At
  width 40 with names of five characters the column width is 7 and the count is 5.
\<close>

theorem grid_layout:
  assumes enum: "directory_iterator p (directory options) = Inr dirIter"
    and grid: "multiColumn options"
    and entries: "entries = sort_entries (std_sort p) options (collect_entries options dirIter [])"
    and ne: "entries \<noteq> []"
    and maxLen: "maxLen = Max ((\<lambda>e. length (filename e)) ` set entries)"
    and columnCount: "columnCount = max 1 (GetConsoleWidth p div (int maxLen + 2))"
  shows "max_filename_length entries 0 = int maxLen
    \<and> column_count (GetConsoleWidth p) (max_filename_length entries 0) = Inr columnCount
    \<and> ListFiles p options io =
        Inr (io\<lparr>cout := cout io @ grid_text maxLen (nat columnCount) entries\<rparr>)
    \<and> (\<forall>e \<in> set entries. length (cell maxLen e) = maxLen + 2)
    \<and> int (length (rows_of (nat columnCount) entries))
        = \<lceil>real (length entries) / real_of_int columnCount\<rceil>
    \<and> (GetConsoleWidth p = 40 \<and> (\<forall>e \<in> set entries. length (filename e) = 5)
        \<longrightarrow> int maxLen + 2 = 7 \<and> columnCount = 5)"
proof -
  have m: "max_filename_length entries 0 = int maxLen"
    using ne maxLen by (simp add: max_filename_length_nat)
  have cc: "column_count (GetConsoleWidth p) (max_filename_length entries 0) = Inr columnCount"
    by (simp add: m column_count_eq columnCount)
  have out: "ListFiles p options io =
      Inr (io\<lparr>cout := cout io @ grid_text maxLen (nat columnCount) entries\<rparr>)"
    using multi_column_eq [of "GetConsoleWidth p" entries io]
    by (simp add: ListFiles_def enum grid entries [symmetric] m columnCount)
  have cells: "\<forall>e \<in> set entries. length (cell maxLen e) = maxLen + 2"
  proof
    fix e assume "e \<in> set entries"
    then have "length (filename e) \<le> maxLen"
      unfolding maxLen by (intro Max_ge) auto
    then show "length (cell maxLen e) = maxLen + 2" by (simp add: cell_def)
  qed
  have pos: "0 < nat columnCount" by (simp add: columnCount)
  have rows: "int (length (rows_of (nat columnCount) entries))
      = \<lceil>real (length entries) / real_of_int columnCount\<rceil>"
    using ceiling_rows [OF pos, of "length entries"] length_rows_of [OF pos, of entries]
      columnCount by simp
  have scen: "GetConsoleWidth p = 40 \<and> (\<forall>e \<in> set entries. length (filename e) = 5)
        \<longrightarrow> int maxLen + 2 = 7 \<and> columnCount = 5"
  proof
    assume a: "GetConsoleWidth p = 40 \<and> (\<forall>e \<in> set entries. length (filename e) = 5)"
    then have "(\<lambda>e. length (filename e)) ` set entries = {5}" using ne by (cases entries) auto
    then have "maxLen = 5" by (simp add: maxLen)
    then show "int maxLen + 2 = 7 \<and> columnCount = 5" using a by (simp add: columnCount)
  qed
  show ?thesis using m cc out cells rows scen by blast
qed

text \<open>
  The theorem at the demo platform: seven five-letter names at width 40 make two rows of
  five columns.
\<close>

theorem grid_layout_witness:
  "ListFiles demo_platform (default_options\<lparr>multiColumn := True\<rparr>) no_output =
     Inr (no_output\<lparr>cout := grid_text 5 5 demo_entries\<rparr>)
   \<and> int (length (rows_of 5 demo_entries)) = 2
   \<and> column_count 40 (max_filename_length demo_entries 0) = Inr 5"
proof -
  let ?options = "default_options\<lparr>multiColumn := True\<rparr>"
  have h1: "directory_iterator demo_platform (directory ?options) = Inr demo_entries"
    by (simp add: demo_platform_def default_options_def)
  have h2: "multiColumn ?options" by simp
  have h3: "demo_entries = sort_entries (std_sort demo_platform) ?options
      (collect_entries ?options demo_entries [])"
    by (simp add: sort_entries_def default_options_def collect_entries_filter)
  have h4: "demo_entries \<noteq> []" by (simp add: demo_entries_def)
  have h5: "5 = Max ((\<lambda>e. length (filename e)) ` set demo_entries)"
    by (simp add: demo_entries_def plain_file_def folder_def)
  have w: "GetConsoleWidth demo_platform = 40"
    by (simp add: GetConsoleWidth_def demo_platform_def)
  have h6: "5 = max 1 (GetConsoleWidth demo_platform div (int 5 + 2))"
    by (simp add: w)
  have n: "length demo_entries = 7" by (simp add: demo_entries_def)
  have c: "column_count 40 5 = Inr 5" by (simp add: column_count_def c_div_def)
  show ?thesis
    using grid_layout [OF h1 h2 h3 h4 h5 h6, of no_output]
    by (simp add: w n c no_output_def)
qed

section \<open>The empty grid, and no division by zero\<close>

lemma grid_text_Nil: "grid_text m c [] = []"
  by (simp add: grid_text_def rows_of.simps)

lemma ListFiles_total: "\<exists>out. ListFiles p options io = Inr out"
  by (simp add: ListFiles_def multi_column_eq Let_def split: sum.split)

text \<open>
  C8. With \<open>-C\<close> and no entry to show, \<open>ListFiles\<close> writes nothing, no line end
  either, and returns. The longest name length of no entries is 0, the divisor is 2, and
  the column count is the larger of 1 and half the width (40 at width 80). For every
  sequence of entries and every width the column count is at least 1, and neither the
  division nor a remainder has a zero divisor: the grid, and \<open>ListFiles\<close> as a whole,
  end without a fault.
\<close>

theorem grid_empty:
  "(directory_iterator p (directory options) = Inr dirIter \<and> multiColumn options
      \<and> sort_entries (std_sort p) options (collect_entries options dirIter []) = []
      \<longrightarrow> ListFiles p options io = Inr io)
   \<and> multi_column w [] io = Inr io
   \<and> column_count w (max_filename_length [] 0) = Inr (max 1 (w div 2))
   \<and> column_count 80 (max_filename_length [] 0) = Inr 40
   \<and> (\<exists>columns. column_count w (max_filename_length entries 0) = Inr columns \<and> 1 \<le> columns)
   \<and> (\<exists>out. multi_column w entries io = Inr out)
   \<and> (\<exists>out. ListFiles p options io = Inr out)"
proof -
  have e: "multi_column w [] io = Inr io" for w
    by (simp add: multi_column_eq grid_text_Nil)
  have a: "directory_iterator p (directory options) = Inr dirIter \<and> multiColumn options
      \<and> sort_entries (std_sort p) options (collect_entries options dirIter []) = []
      \<longrightarrow> ListFiles p options io = Inr io"
    by (simp add: ListFiles_def e)
  have c: "column_count w (max_filename_length es 0) = Inr (max 1 (w div (max_filename_length es 0 + 2)))" for w es
    by (simp add: column_count_eq max_filename_length_nonneg)
  have c1: "\<exists>columns. column_count w (max_filename_length entries 0) = Inr columns \<and> 1 \<le> columns"
    by (simp add: c)
  have m: "\<exists>out. multi_column w entries io = Inr out"
    by (simp add: multi_column_eq)
  show ?thesis
    using a e [of w] c [of w "[]"] c [of 80 "[]"] c1 m ListFiles_total [of p options io]
    by simp
qed

text \<open>An empty directory with \<open>-C\<close>, the console width unavailable (80 columns).\<close>

theorem grid_empty_witness:
  "ListFiles (demo_platform\<lparr>console_window := None\<rparr>)
     (default_options\<lparr>multiColumn := True, directory := ''docs''\<rparr>) no_output = Inr no_output"
proof -
  let ?p = "demo_platform\<lparr>console_window := None\<rparr>"
  let ?options = "default_options\<lparr>multiColumn := True, directory := ''docs''\<rparr>"
  have "directory_iterator ?p (directory ?options) = Inr [] \<and> multiColumn ?options
      \<and> sort_entries (std_sort ?p) ?options (collect_entries ?options [] []) = []"
    by (simp add: demo_platform_def default_options_def sort_entries_def)
  then show ?thesis
    using grid_empty [of ?p ?options "[]" no_output] by blast
qed

section \<open>Sorting\<close>
















section \<open>The display loop\<close>





lemma display_entries_names:
  "\<not> longListing options \<Longrightarrow>
   display_entries p options es io =
     io\<lparr>cout := cout io @
        concat (map (\<lambda>e. filename e @ (if oneColumn options then endl else ''  '')) es)\<rparr>"
  by (induction es arbitrary: io) (simp_all add: display_entry_def)


lemma ListFiles_names:
  assumes "directory_iterator p (directory options) = Inr dirIter"
    and "\<not> multiColumn options" and "\<not> longListing options"
    and "entries = sort_entries (std_sort p) options (collect_entries options dirIter [])"
  shows "ListFiles p options io =
     Inr (io\<lparr>cout := cout io @
        concat (map (\<lambda>e. filename e @ (if oneColumn options then endl else ''  '')) entries) @
        (if oneColumn options then [] else endl)\<rparr>)"
  using assms by (simp add: ListFiles_def Let_def display_entries_names)

subsection \<open>Digits\<close>


lemma decimal_small: "n < 10 \<Longrightarrow> decimal n = [digit_char n]"
  by (simp add: decimal.simps)

lemma decimal_step: "10 \<le> n \<Longrightarrow> decimal n = decimal (n div 10) @ [digit_char (n mod 10)]"
  by (subst decimal.simps) simp








section \<open>The layouts of \<open>ListFiles\<close>\<close>

lemma replicate_numeral: "replicate (numeral k) x = x # replicate (pred_numeral k) x"
  by (simp add: numeral_eq_Suc)

lemmas run_simps =
  ListFiles_def Let_def display_entry_def sort_entries_def tie_keeping_sort_def
  demo_platform_def demo_localtime_def demo_entries_def log_entries_def plain_file_def
  folder_def default_options_def no_output_def conversion_def setw_right_def two_digits_def
  decimal_int_def digit_char_def decimal_small decimal_step replicate_numeral




section \<open>The long listing\<close>





section \<open>Line ends\<close>





section \<open>A directory that cannot be enumerated\<close>



section \<open>Arguments\<close>

lemma flags_start_with_hyphen: "arg \<in> set known_flags \<Longrightarrow> first_char arg = CHR ''-''"
  by (auto simp: known_flags_def first_char_def)

lemma parse_loop_other:
  "arg \<notin> set known_flags \<Longrightarrow>
   parse_loop p (arg # rest) options io =
     (if first_char arg = CHR ''-'' then
        parse_loop p rest options
          (DisplayUsage (io\<lparr>cerr := cerr io @ ''Unknown option: '' @ arg @ endl\<rparr>))
      else if \<not> IsValidDirectory p arg then
        parse_loop p rest options
          (DisplayUsage (io\<lparr>cerr := cerr io @ ''Invalid directory: '' @ arg @ endl\<rparr>))
      else parse_loop p rest (options\<lparr>directory := arg\<rparr>) io)"
  by (simp add: known_flags_def)

lemma parse_loop_flags:
  "parse_loop p (''-l'' # rest) options io = parse_loop p rest (options\<lparr>longListing := True\<rparr>) io"
  "parse_loop p (''-d'' # rest) options io = parse_loop p rest (options\<lparr>directoriesOnly := True\<rparr>) io"
  "parse_loop p (''-t'' # rest) options io = parse_loop p rest (options\<lparr>sortByTime := True\<rparr>) io"
  "parse_loop p (''-s'' # rest) options io = parse_loop p rest (options\<lparr>sortBySize := True\<rparr>) io"
  "parse_loop p (''-1'' # rest) options io = parse_loop p rest (options\<lparr>oneColumn := True\<rparr>) io"
  "parse_loop p (''-C'' # rest) options io = parse_loop p rest (options\<lparr>multiColumn := True\<rparr>) io"
  by simp_all

lemma parse_loop_exits:
  "parse_loop p (''--help'' # rest) options io = Exited (DisplayUsage io)"
  "parse_loop p (''-h'' # rest) options io = Exited (DisplayUsage io)"
  "parse_loop p (''-?'' # rest) options io = Exited (DisplayUsage io)"
  "parse_loop p (''--version'' # rest) options io =
     Exited (io\<lparr>cout := cout io @ ''lls version 1.0.0'' @ endl\<rparr>)"
  by simp_all

declare parse_loop.simps(2) [simp del]

lemma parse_loop_directory_argument:
  "directory_argument p arg \<Longrightarrow>
   parse_loop p (arg # rest) options io = parse_loop p rest (options\<lparr>directory := arg\<rparr>) io"
  using flags_start_with_hyphen [of arg] parse_loop_other [of arg p rest options io]
  by (auto simp: directory_argument_def)

lemma parse_loop_unknown_option:
  "first_char arg = CHR ''-'' \<Longrightarrow> arg \<notin> set known_flags \<Longrightarrow>
   parse_loop p (arg # rest) options io =
     parse_loop p rest options
       (DisplayUsage (io\<lparr>cerr := cerr io @ ''Unknown option: '' @ arg @ endl\<rparr>))"
  by (simp add: parse_loop_other)

lemma parse_loop_invalid_directory:
  "first_char arg \<noteq> CHR ''-'' \<Longrightarrow> \<not> IsValidDirectory p arg \<Longrightarrow>
   parse_loop p (arg # rest) options io =
     parse_loop p rest options
       (DisplayUsage (io\<lparr>cerr := cerr io @ ''Invalid directory: '' @ arg @ endl\<rparr>))"
  using flags_start_with_hyphen [of arg] parse_loop_other [of arg p rest options io]
  by auto

text \<open>
  One turn of the loop on an argument that does not end the process: the loop goes on
  with options whose directory is the argument when it is a directory argument, and the
  directory as it was otherwise.
\<close>

lemma parse_loop_step:
  assumes "arg \<notin> set [''--help'', ''-h'', ''-?'', ''--version'']"
  shows "\<exists>options1 io1.
      directory options1 = (if directory_argument p arg then arg else directory options)
      \<and> (\<forall>rest. parse_loop p (arg # rest) options io = parse_loop p rest options1 io1)"
proof -
  consider "arg = ''-l''" | "arg = ''-d''" | "arg = ''-t''" | "arg = ''-s''" | "arg = ''-1''"
    | "arg = ''-C''" | "arg \<notin> set known_flags"
    using assms by (auto simp: known_flags_def)
  then show ?thesis
  proof cases
    case 1
    have "\<not> directory_argument p ''-l''" by (simp add: directory_argument_def first_char_def)
    then show ?thesis
      unfolding 1 by (intro exI [of _ "options\<lparr>longListing := True\<rparr>"] exI [of _ io])
        (simp add: parse_loop_flags)
  next
    case 2
    have "\<not> directory_argument p ''-d''" by (simp add: directory_argument_def first_char_def)
    then show ?thesis
      unfolding 2 by (intro exI [of _ "options\<lparr>directoriesOnly := True\<rparr>"] exI [of _ io])
        (simp add: parse_loop_flags)
  next
    case 3
    have "\<not> directory_argument p ''-t''" by (simp add: directory_argument_def first_char_def)
    then show ?thesis
      unfolding 3 by (intro exI [of _ "options\<lparr>sortByTime := True\<rparr>"] exI [of _ io])
        (simp add: parse_loop_flags)
  next
    case 4
    have "\<not> directory_argument p ''-s''" by (simp add: directory_argument_def first_char_def)
    then show ?thesis
      unfolding 4 by (intro exI [of _ "options\<lparr>sortBySize := True\<rparr>"] exI [of _ io])
        (simp add: parse_loop_flags)
  next
    case 5
    have "\<not> directory_argument p ''-1''" by (simp add: directory_argument_def first_char_def)
    then show ?thesis
      unfolding 5 by (intro exI [of _ "options\<lparr>oneColumn := True\<rparr>"] exI [of _ io])
        (simp add: parse_loop_flags)
  next
    case 6
    have "\<not> directory_argument p ''-C''" by (simp add: directory_argument_def first_char_def)
    then show ?thesis
      unfolding 6 by (intro exI [of _ "options\<lparr>multiColumn := True\<rparr>"] exI [of _ io])
        (simp add: parse_loop_flags)
  next
    case 7
    show ?thesis
    proof (cases "first_char arg = CHR ''-''")
      case True
      then have "\<not> directory_argument p arg" by (simp add: directory_argument_def)
      then show ?thesis
        using parse_loop_unknown_option [OF True 7, of p _ options io] by auto
    next
      case False
      note positional = this
      show ?thesis
      proof (cases "IsValidDirectory p arg")
        case True
        then have d: "directory_argument p arg" using positional by (simp add: directory_argument_def)
        show ?thesis
          using parse_loop_directory_argument [OF d, of _ options io] d
          by (intro exI [of _ "options\<lparr>directory := arg\<rparr>"] exI [of _ io]) simp
      next
        case False
        then have "\<not> directory_argument p arg" by (simp add: directory_argument_def)
        then show ?thesis
          using parse_loop_invalid_directory [OF positional False, of _ options io] by auto
      qed
    qed
  qed
qed

lemma parse_loop_directory:
  "parse_loop p args options io = Returned options' io' \<Longrightarrow>
   directory options' = last (directory options # filter (directory_argument p) args)"
proof (induction args arbitrary: options io)
  case Nil
  then show ?case by simp
next
  case (Cons arg rest)
  show ?case
  proof (cases "arg \<in> set [''--help'', ''-h'', ''-?'', ''--version'']")
    case True
    then have "\<exists>io1. parse_loop p (arg # rest) options io = Exited io1"
      by (auto simp: parse_loop_exits)
    then show ?thesis using Cons.prems by auto
  next
    case False
    from parse_loop_step [OF False, of p options io] obtain options1 io1 where
      o1: "directory options1 = (if directory_argument p arg then arg else directory options)"
        "parse_loop p (arg # rest) options io = parse_loop p rest options1 io1"
      by blast
    then have "parse_loop p rest options1 io1 = Returned options' io'"
      using Cons.prems by simp
    then have "directory options' = last (directory options1 # filter (directory_argument p) rest)"
      by (rule Cons.IH)
    then show ?thesis using o1(1) by simp
  qed
qed

lemma parse_loop_returns:
  "\<forall>arg \<in> set args. arg \<notin> set [''--help'', ''-h'', ''-?'', ''--version''] \<Longrightarrow>
   \<exists>options' io'. parse_loop p args options io = Returned options' io'"
proof (induction args arbitrary: options io)
  case Nil
  then show ?case by simp
next
  case (Cons arg rest)
  then have "arg \<notin> set [''--help'', ''-h'', ''-?'', ''--version'']" by simp
  from parse_loop_step [OF this, of p options io] obtain options1 io1 where
    "parse_loop p (arg # rest) options io = parse_loop p rest options1 io1"
    by blast
  then show ?case using Cons.IH [of options1 io1] Cons.prems by simp
qed

text \<open>
  C10. A positional argument that names an existing directory replaces the directory
  option; an unknown flag and an invalid directory argument write their warning and
  leave the options as they are. So when parsing returns, the directory option is the
  last valid directory argument, or the value it had when there is none, and that is
  the directory \<open>main\<close> hands to \<open>ListFiles\<close>. Parsing returns whenever no argument asks
  for the help or the version.
\<close>

theorem last_directory_argument_wins:
  "(directory_argument p arg \<longrightarrow>
      parse_loop p (arg # rest) options io = parse_loop p rest (options\<lparr>directory := arg\<rparr>) io)
   \<and> (first_char arg = CHR ''-'' \<and> arg \<notin> set known_flags \<longrightarrow>
      parse_loop p (arg # rest) options io =
        parse_loop p rest options
          (DisplayUsage (io\<lparr>cerr := cerr io @ ''Unknown option: '' @ arg @ endl\<rparr>)))
   \<and> (first_char arg \<noteq> CHR ''-'' \<and> \<not> IsValidDirectory p arg \<longrightarrow>
      parse_loop p (arg # rest) options io =
        parse_loop p rest options
          (DisplayUsage (io\<lparr>cerr := cerr io @ ''Invalid directory: '' @ arg @ endl\<rparr>)))
   \<and> (ParseArguments p argv options io = Returned options' io' \<longrightarrow>
      directory options' = last (directory options # filter (directory_argument p) (drop 1 argv)))
   \<and> (ParseArguments p argv default_options no_output = Returned options' io' \<longrightarrow>
      main p argv = ListFiles p options' io')
   \<and> ((\<forall>a \<in> set (drop 1 argv). a \<notin> set [''--help'', ''-h'', ''-?'', ''--version'']) \<longrightarrow>
      (\<exists>options' io'. ParseArguments p argv options io = Returned options' io'))"
proof -
  have a: "ParseArguments p argv options io = Returned options' io' \<longrightarrow>
      directory options' = last (directory options # filter (directory_argument p) (drop 1 argv))"
    unfolding ParseArguments_def using parse_loop_directory by blast
  have b: "ParseArguments p argv default_options no_output = Returned options' io' \<longrightarrow>
      main p argv = ListFiles p options' io'"
    by (simp add: main_def)
  have c: "(\<forall>a \<in> set (drop 1 argv). a \<notin> set [''--help'', ''-h'', ''-?'', ''--version'']) \<longrightarrow>
      (\<exists>options' io'. ParseArguments p argv options io = Returned options' io')"
    unfolding ParseArguments_def using parse_loop_returns [of "drop 1 argv" p options io] by blast
  show ?thesis
    using a b c parse_loop_directory_argument [of p arg rest options io]
      parse_loop_unknown_option [of arg p rest options io]
      parse_loop_invalid_directory [of arg p rest options io]
    by blast
qed

text \<open>
  The theorem on the demo platform: of \<open>docs\<close>, an unknown flag, a path that does not
  exist, \<open>logs\<close> and a file, the directory listed is \<open>logs\<close>.
\<close>

theorem last_directory_argument_wins_witness:
  "ParseArguments demo_platform [''lls'', ''docs'', ''-x'', ''nope'', ''logs'', ''notes.txt'', ''-1'']
      default_options no_output
     = Returned (default_options\<lparr>oneColumn := True, directory := ''logs''\<rparr>)
         \<lparr>cout = usage_text @ usage_text @ usage_text,
          cerr = ''Unknown option: -x'' @ endl @ ''Invalid directory: nope'' @ endl
                 @ ''Invalid directory: notes.txt'' @ endl\<rparr>
   \<and> last (directory default_options # filter (directory_argument demo_platform)
        (drop 1 [''lls'', ''docs'', ''-x'', ''nope'', ''logs'', ''notes.txt'', ''-1''])) = ''logs''
   \<and> main demo_platform [''lls'', ''docs'', ''-x'', ''nope'', ''logs'', ''notes.txt'', ''-1'']
     = ListFiles demo_platform (default_options\<lparr>oneColumn := True, directory := ''logs''\<rparr>)
         \<lparr>cout = usage_text @ usage_text @ usage_text,
          cerr = ''Unknown option: -x'' @ endl @ ''Invalid directory: nope'' @ endl
                 @ ''Invalid directory: notes.txt'' @ endl\<rparr>"
proof -
  let ?argv = "[''lls'', ''docs'', ''-x'', ''nope'', ''logs'', ''notes.txt'', ''-1'']"
  let ?options = "default_options\<lparr>oneColumn := True, directory := ''logs''\<rparr>"
  let ?io = "\<lparr>cout = usage_text @ usage_text @ usage_text,
          cerr = ''Unknown option: -x'' @ endl @ ''Invalid directory: nope'' @ endl
                 @ ''Invalid directory: notes.txt'' @ endl\<rparr>"
  have run: "ParseArguments demo_platform ?argv default_options no_output = Returned ?options ?io"
    by (simp add: ParseArguments_def parse_loop.simps IsValidDirectory_def first_char_def
        DisplayUsage_def demo_platform_def default_options_def no_output_def)
  have "directory ?options = last (directory default_options
      # filter (directory_argument demo_platform) (drop 1 ?argv))"
    using last_directory_argument_wins [of demo_platform _ _ default_options no_output ?argv ?options ?io]
      run by blast
  moreover have "main demo_platform ?argv = ListFiles demo_platform ?options ?io"
    using last_directory_argument_wins [of demo_platform _ _ default_options no_output ?argv ?options ?io]
      run by blast
  ultimately show ?thesis using run by simp
qed

section \<open>A directory argument that does not exist\<close>

text \<open>
  C5, as the code has it. A positional argument that names nothing makes
  \<open>ParseArguments\<close> write one line to the error stream, \<open>Invalid directory: \<close> and the
  path, and the usage text to the standard output; the options stay as they were and the
  loop goes on. When that argument is the only one, \<open>main\<close> then lists the default
  directory \<open>.\<close>: if its enumeration succeeds, the names of its entries follow the usage
  text on the standard output.
\<close>

theorem invalid_directory_lists_default:
  assumes "first_char path \<noteq> CHR ''-''" and "\<not> fs_exists p path"
  shows "parse_loop p (path # rest) options io =
      parse_loop p rest options
        (DisplayUsage (io\<lparr>cerr := cerr io @ ''Invalid directory: '' @ path @ endl\<rparr>))
    \<and> ParseArguments p [prog, path] default_options no_output =
        Returned default_options
          \<lparr>cout = usage_text, cerr = ''Invalid directory: '' @ path @ endl\<rparr>
    \<and> main p [prog, path] =
        ListFiles p default_options
          \<lparr>cout = usage_text, cerr = ''Invalid directory: '' @ path @ endl\<rparr>
    \<and> directory default_options = ''.''
    \<and> (\<forall>dirIter. directory_iterator p ''.'' = Inr dirIter \<longrightarrow>
          main p [prog, path] =
            Inr \<lparr>cout = usage_text @ concat (map (\<lambda>e. filename e @ ''  '') dirIter) @ endl,
                 cerr = ''Invalid directory: '' @ path @ endl\<rparr>)"
proof -
  have inv: "\<not> IsValidDirectory p path" using assms(2) by (simp add: IsValidDirectory_def)
  have step: "parse_loop p (path # rest) options io =
      parse_loop p rest options
        (DisplayUsage (io\<lparr>cerr := cerr io @ ''Invalid directory: '' @ path @ endl\<rparr>))" for rest options io
    using parse_loop_invalid_directory [OF assms(1) inv] .
  have parse: "ParseArguments p [prog, path] default_options no_output =
        Returned default_options
          \<lparr>cout = usage_text, cerr = ''Invalid directory: '' @ path @ endl\<rparr>"
    by (simp add: ParseArguments_def step DisplayUsage_def no_output_def)
  have run: "main p [prog, path] =
        ListFiles p default_options
          \<lparr>cout = usage_text, cerr = ''Invalid directory: '' @ path @ endl\<rparr>"
    by (simp add: main_def parse)
  have listed: "main p [prog, path] =
            Inr \<lparr>cout = usage_text @ concat (map (\<lambda>e. filename e @ ''  '') dirIter) @ endl,
                 cerr = ''Invalid directory: '' @ path @ endl\<rparr>"
    if "directory_iterator p ''.'' = Inr dirIter" for dirIter
  proof -
    have h1: "directory_iterator p (directory default_options) = Inr dirIter"
      using that by (simp add: default_options_def)
    have h2: "\<not> multiColumn default_options" "\<not> longListing default_options"
      by (simp_all add: default_options_def)
    have h3: "dirIter = sort_entries (std_sort p) default_options
        (collect_entries default_options dirIter [])"
      by (simp add: sort_entries_def collect_entries_filter default_options_def)
    have "\<not> oneColumn default_options" by (simp add: default_options_def)
    then show ?thesis
      using ListFiles_names [OF h1 h2 h3,
          of "\<lparr>cout = usage_text, cerr = ''Invalid directory: '' @ path @ endl\<rparr>"]
      by (simp add: run)
  qed
  have "directory default_options = ''.''" by (simp add: default_options_def)
  then show ?thesis using step parse run listed by blast
qed

text \<open>The theorem on the demo platform, whose current directory holds seven entries.\<close>

theorem invalid_directory_lists_default_witness:
  "ParseArguments demo_platform [''lls'', ''nope''] default_options no_output =
     Returned default_options
       \<lparr>cout = usage_text, cerr = ''Invalid directory: '' @ ''nope'' @ endl\<rparr>
   \<and> main demo_platform [''lls'', ''nope''] =
     Inr \<lparr>cout = usage_text @ concat (map (\<lambda>e. filename e @ ''  '') demo_entries) @ endl,
          cerr = ''Invalid directory: '' @ ''nope'' @ endl\<rparr>"
proof -
  have h1: "first_char ''nope'' \<noteq> CHR ''-''" by (simp add: first_char_def)
  have h2: "\<not> fs_exists demo_platform ''nope''" by (simp add: demo_platform_def)
  have d: "directory_iterator demo_platform ''.'' = Inr demo_entries"
    by (simp add: demo_platform_def)
  show ?thesis
    using invalid_directory_lists_default [OF h1 h2, of "[]" default_options no_output "''lls''"] d
    by blast
qed

text \<open>
  C5 as stated fails: after the one diagnostic line for the path that does not exist,
  the listing step writes the seven entries of the current directory.
\<close>

theorem invalid_directory_still_lists:
  "\<not> fs_exists demo_platform ''nope''
   \<and> main demo_platform [''lls'', ''nope''] =
     Inr \<lparr>cout = usage_text @ ''alpha  bravo  delta  gamma  kappa  omega  sigma  '' @ endl,
          cerr = ''Invalid directory: nope'' @ endl\<rparr>"
  by (simp add: main_def ParseArguments_def parse_loop.simps(2) IsValidDirectory_def
      first_char_def DisplayUsage_def run_simps)

end
